theory Spec2Isabelle
  imports Main "HOL-Library.List_Lexorder" "HOL-Library.AList"
begin

section \<open>Python strings\<close>

text \<open>
  A Python \<open>str\<close> is a sequence of Unicode code points. A code point is modelled as a
  natural number and a string as a list of them, so that \<open>re.sub\<close>, \<open>str.strip\<close> and
  \<open>sorted\<close> act on the same units as in the interpreter. \<open>lit\<close> turns an Isabelle
  string literal (ASCII) into such a string.
\<close>

type_synonym pychar = nat
type_synonym pystr = "pychar list"

definition lit :: "string \<Rightarrow> pystr" where
  "lit s = map of_char s"

text \<open>\<open>str.isspace\<close> for one code point: the code points of Unicode's white-space set.\<close>

definition py_isspace :: "pychar \<Rightarrow> bool" where
  "py_isspace c \<longleftrightarrow>
     (9 \<le> c \<and> c \<le> 13) \<or> (28 \<le> c \<and> c \<le> 32) \<or> c = 133 \<or> c = 160 \<or> c = 5760 \<or>
     (8192 \<le> c \<and> c \<le> 8202) \<or> c = 8232 \<or> c = 8233 \<or> c = 8239 \<or> c = 8287 \<or>
     c = 12288"

text \<open>\<open>s.strip()\<close>: leading and trailing white space removed.\<close>

definition py_strip :: "pystr \<Rightarrow> pystr" where
  "py_strip s = rev (dropWhile py_isspace (rev (dropWhile py_isspace s)))"

text \<open>\<open>s.replace(a, b)\<close> for one-character \<open>a\<close> and \<open>b\<close>.\<close>

definition py_replace :: "pychar \<Rightarrow> pychar \<Rightarrow> pystr \<Rightarrow> pystr" where
  "py_replace a b s = map (\<lambda>c. if c = a then b else c) s"

text \<open>\<open>s.endswith(suf)\<close>.\<close>

definition endswith :: "pystr \<Rightarrow> pystr \<Rightarrow> bool" where
  "endswith s suf \<longleftrightarrow> length suf \<le> length s \<and> drop (length s - length suf) s = suf"

section \<open>File-name sanitisation (\<open>do_POST\<close>, lines 71 to 83)\<close>

text \<open>
  The character class of the regular expression \<open>[^A-Za-z0-9_\-\. ]\<close> is the complement
  of \<open>allowed\<close>: letters, digits, underscore (95), hyphen (45), dot (46) and space (32).
\<close>

definition allowed :: "pychar \<Rightarrow> bool" where
  "allowed c \<longleftrightarrow>
     (65 \<le> c \<and> c \<le> 90) \<or> (97 \<le> c \<and> c \<le> 122) \<or> (48 \<le> c \<and> c \<le> 57) \<or>
     c = 95 \<or> c = 45 \<or> c = 46 \<or> c = 32"

text \<open>\<open>re.sub(r"[^A-Za-z0-9_\-\. ]", "_", name)\<close>: every code point outside the class
  becomes an underscore, one for one.\<close>

definition re_sub_disallowed :: "pystr \<Rightarrow> pystr" where
  "re_sub_disallowed name = map (\<lambda>c. if allowed c then c else 95) name"

text \<open>
  The name the handler writes to, or \<open>None\<close> where it answers
  ``Empty or invalid FileName''. 47 is the slash and 92 the backslash.
\<close>

definition sanitize :: "pystr \<Rightarrow> pystr option" where
  "sanitize name =
     (let safe_name = py_strip (re_sub_disallowed name);
          safe_name = py_replace 92 95 (py_replace 47 95 safe_name)
      in if safe_name = [] then None
         else if \<not> endswith safe_name (lit ''.txt'') then Some (safe_name @ lit ''.txt'')
         else Some safe_name)"

section \<open>Paths (\<open>pathlib\<close>)\<close>

text \<open>
  A path is the list of its components below the root; the base directory is resolved
  to an absolute path at start-up (\<open>Path(args.dir).resolve()\<close>). The operations follow
  \<open>PurePosixPath\<close>, where the slash (47) is the only separator.
\<close>

type_synonym path = "pystr list"

text \<open>\<open>s.split("/")\<close>.\<close>

fun split_slash :: "pystr \<Rightarrow> pystr list" where
  "split_slash [] = [[]]"
| "split_slash (c # cs) =
     (if c = 47 then [] # split_slash cs
      else (case split_slash cs of [] \<Rightarrow> [[c]] | p # ps \<Rightarrow> (c # p) # ps))"

text \<open>The components of a string given to \<open>pathlib\<close>: empty components and single dots
  are dropped, \<open>..\<close> is kept.\<close>

definition parse_parts :: "pystr \<Rightarrow> path" where
  "parse_parts s = filter (\<lambda>p. p \<noteq> [] \<and> p \<noteq> lit ''.'') (split_slash s)"

text \<open>\<open>base / s\<close>: a string that starts with a slash is absolute and replaces the
  base.\<close>

definition truediv :: "path \<Rightarrow> pystr \<Rightarrow> path" where
  "truediv base s =
     (if s \<noteq> [] \<and> hd s = 47 then parse_parts s else base @ parse_parts s)"

text \<open>\<open>p.name\<close> and \<open>p.parent\<close>.\<close>

definition path_name :: "path \<Rightarrow> pystr" where
  "path_name p = (if p = [] then [] else last p)"

definition parent :: "path \<Rightarrow> path" where
  "parent p = butlast p"

text \<open>\<open>s.rfind(c)\<close>: the index of the last occurrence, \<open>-1\<close> when there is none.\<close>

definition rfind :: "pychar \<Rightarrow> pystr \<Rightarrow> int" where
  "rfind c s =
     (if c \<in> set s then int (length s) - 1 - int (length (takeWhile (\<lambda>x. x \<noteq> c) (rev s)))
      else - 1)"

text \<open>
  \<open>p.suffix\<close> and \<open>p.stem\<close> as \<open>pathlib\<close> defines them on the name (46 is the dot):
  \<open>i = name.rfind("."); if 0 < i < len(name) - 1: name[i:] / name[:i]\<close>, and otherwise
  the empty suffix and the whole name.
\<close>

definition py_suffix :: "pystr \<Rightarrow> pystr" where
  "py_suffix name =
     (let i = rfind 46 name
      in if 0 < i \<and> i < int (length name) - 1 then drop (nat i) name else [])"

definition py_stem :: "pystr \<Rightarrow> pystr" where
  "py_stem name =
     (let i = rfind 46 name
      in if 0 < i \<and> i < int (length name) - 1 then take (nat i) name else name)"

text \<open>
  \<open>s.lower()\<close> on the ASCII letters. The case mappings of the other code points are left
  out: none of them yields a dot, a \<open>t\<close> or an \<open>x\<close>, so the comparison with \<open>.txt\<close> that
  \<open>list_all_files\<close> makes has the same outcome.
\<close>

definition py_lower :: "pystr \<Rightarrow> pystr" where
  "py_lower s = map (\<lambda>c. if 65 \<le> c \<and> c \<le> 90 then c + 32 else c) s"

section \<open>The file system\<close>

text \<open>
  The file system maps the paths that exist to a regular file with its text, or to a
  directory; the order of the list is the order in which a directory is listed. What the
  operating system refuses is a parameter: the paths it will not open for writing and the
  directories it will not list. A refused call raises \<open>OSError\<close> and changes nothing.
\<close>

datatype node = File pystr | Dir

type_synonym fs = "(path \<times> node) list"

datatype exn = OSError | UnicodeEncodeError

record io_env =
  write_denied :: "path \<Rightarrow> bool"
  scan_denied :: "path \<Rightarrow> bool"

text \<open>\<open>p.is_file()\<close>.\<close>

definition is_file :: "fs \<Rightarrow> path \<Rightarrow> bool" where
  "is_file fs p = (case map_of fs p of Some (File t) \<Rightarrow> True | _ \<Rightarrow> False)"

text \<open>\<open>base_dir.iterdir()\<close>: the paths directly below the directory.\<close>

definition iterdir :: "io_env \<Rightarrow> fs \<Rightarrow> path \<Rightarrow> exn + path list" where
  "iterdir env fs base =
     (if scan_denied env base then Inl OSError
      else Inr (filter (\<lambda>p. p \<noteq> [] \<and> parent p = base) (map fst fs)))"

text \<open>The text can be encoded as UTF-8 when it holds no surrogate code point.\<close>

definition utf8_encodable :: "pystr \<Rightarrow> bool" where
  "utf8_encodable s = list_all (\<lambda>c. c < 55296 \<or> 57343 < c) s"

text \<open>
  \<open>p.write_text(data, encoding="utf-8")\<close>: the result is the exception raised, if any,
  and the file system afterwards. The file is opened for writing, which creates or
  truncates it, and the text is encoded after that: a text that cannot be encoded leaves
  an empty file behind. An existing directory cannot be opened for writing.
\<close>

definition write_text :: "io_env \<Rightarrow> fs \<Rightarrow> path \<Rightarrow> pystr \<Rightarrow> exn option \<times> fs" where
  "write_text env fs p data =
     (if write_denied env p \<or> map_of fs p = Some Dir then (Some OSError, fs)
      else if utf8_encodable data then (None, AList.update p (File data) fs)
      else (Some UnicodeEncodeError, AList.update p (File []) fs))"

section \<open>The index (\<open>list_all_files\<close>, \<open>write_all_scene_names\<close>)\<close>

definition list_all_files :: "io_env \<Rightarrow> fs \<Rightarrow> path \<Rightarrow> exn + pystr list" where
  "list_all_files env fs base_dir =
     (case iterdir env fs base_dir of
        Inl e \<Rightarrow> Inl e
      | Inr ps \<Rightarrow>
          Inr (sort (map (\<lambda>p. py_stem (path_name p))
            (filter (\<lambda>p. is_file fs p \<and> py_lower (py_suffix (path_name p)) = lit ''.txt'' \<and>
                          path_name p \<noteq> lit ''index.txt'') ps))))"

text \<open>\<open>sep.join(names)\<close>.\<close>

fun py_join :: "pystr \<Rightarrow> pystr list \<Rightarrow> pystr" where
  "py_join sep [] = []"
| "py_join sep [x] = x"
| "py_join sep (x # y # ys) = x @ sep @ py_join sep (y # ys)"

text \<open>10 is the newline.\<close>

definition write_all_scene_names :: "io_env \<Rightarrow> fs \<Rightarrow> path \<Rightarrow> exn option \<times> fs" where
  "write_all_scene_names env fs base_dir =
     (case list_all_files env fs base_dir of
        Inl e \<Rightarrow> (Some e, fs)
      | Inr names \<Rightarrow>
          (let content = py_join [10] names @ (if names \<noteq> [] then [10] else [])
           in write_text env fs (truediv base_dir (lit ''index.txt'')) content))"

section \<open>The store (\<open>do_POST\<close>, lines 71 to 99)\<close>

text \<open>
  A response is its status code and the dictionary given to \<open>json.dumps\<close>:
  \<open>{"ok": True, "file": f}\<close>, \<open>{"ok": False, "error": msg}\<close> with a literal message, or
  \<open>{"ok": False, "error": str(e)}\<close> for a caught exception.
\<close>

datatype body = BodyFile pystr | BodyError pystr | BodyExn exn

datatype response = Response nat body

text \<open>
  The part of the handler that works on the two strings: sanitise the name, write the
  entry, rebuild the index. Both writes stand in one \<open>try\<close> block, so the first
  exception ends the block and is answered with 500. The handler runs here on its own:
  no other thread touches the directory between its two writes.
\<close>

definition store :: "io_env \<Rightarrow> path \<Rightarrow> fs \<Rightarrow> pystr \<Rightarrow> pystr \<Rightarrow> response \<times> fs" where
  "store env base_dir fs name contents =
     (case sanitize name of
        None \<Rightarrow> (Response 400 (BodyError (lit ''Empty or invalid FileName'')), fs)
      | Some safe_name \<Rightarrow>
          (let target_path = truediv base_dir safe_name
           in case write_text env fs target_path contents of
                (Some e, fs1) \<Rightarrow> (Response 500 (BodyExn e), fs1)
              | (None, fs1) \<Rightarrow>
                  (case write_all_scene_names env fs1 base_dir of
                     (Some e, fs2) \<Rightarrow> (Response 500 (BodyExn e), fs2)
                   | (None, fs2) \<Rightarrow> (Response 200 (BodyFile (path_name target_path)), fs2))))"

section \<open>The request handler (\<open>do_POST\<close>, lines 44 to 69)\<close>

text \<open>The value of a decoded JSON document. A float is held as the text of its
  \<open>repr\<close>, an object as the list of its members.\<close>

datatype json =
    JNull
  | JBool bool
  | JInt int
  | JFloat pystr
  | JStr pystr
  | JArray "json list"
  | JObject "(pystr \<times> json) list"

text \<open>
  What the handler calls in the interpreter and this development leaves open:
  \<open>json.loads(raw.decode("utf-8"))\<close> on a body that is not empty (\<open>None\<close> when either call
  raises), and \<open>str\<close> of a list or a dictionary.
\<close>

record py_builtins =
  json_loads :: "nat list \<Rightarrow> json option"
  str_container :: "json \<Rightarrow> pystr"

text \<open>The decimal digits of a natural number and \<open>str\<close> of an integer (45 is the
  minus sign, 48 the digit zero).\<close>

fun dec_digits :: "nat \<Rightarrow> pystr" where
  "dec_digits n = (if n < 10 then [48 + n] else dec_digits (n div 10) @ [48 + n mod 10])"

declare dec_digits.simps [simp del]

definition str_int :: "int \<Rightarrow> pystr" where
  "str_int i = (if i < 0 then 45 # dec_digits (nat (- i)) else dec_digits (nat i))"

text \<open>\<open>str(v)\<close> for a decoded JSON value.\<close>

definition py_str :: "py_builtins \<Rightarrow> json \<Rightarrow> pystr" where
  "py_str py v =
     (case v of
        JStr s \<Rightarrow> s
      | JNull \<Rightarrow> lit ''None''
      | JBool b \<Rightarrow> (if b then lit ''True'' else lit ''False'')
      | JInt i \<Rightarrow> str_int i
      | JFloat r \<Rightarrow> r
      | _ \<Rightarrow> str_container py v)"

text \<open>
  \<open>int(s)\<close> for a header value, \<open>None\<close> for \<open>ValueError\<close>: white space around the number
  is dropped, then comes an optional sign and decimal digits, where single underscores
  may stand between digits. The white space \<open>int\<close> accepts is that of \<open>str.isspace\<close>
  without the code points 28 to 31. A header value is decoded as Latin-1, so the decimal
  digits of other scripts, which \<open>int\<close> also accepts, cannot occur in it and are left
  out, as is the interpreter's configurable limit on the number of digits.
\<close>

definition int_space :: "pychar \<Rightarrow> bool" where
  "int_space c \<longleftrightarrow> py_isspace c \<and> (c < 28 \<or> 31 < c)"

definition is_digit :: "pychar \<Rightarrow> bool" where
  "is_digit c \<longleftrightarrow> 48 \<le> c \<and> c \<le> 57"

fun parse_digits :: "nat \<Rightarrow> pystr \<Rightarrow> nat option" where
  "parse_digits acc [] = Some acc"
| "parse_digits acc [c] = (if is_digit c then Some (10 * acc + (c - 48)) else None)"
| "parse_digits acc (c # d # ds) =
     (if is_digit c then parse_digits (10 * acc + (c - 48)) (d # ds)
      else if c = 95 \<and> is_digit d then parse_digits (10 * acc + (d - 48)) ds
      else None)"

definition parse_unsigned :: "pystr \<Rightarrow> nat option" where
  "parse_unsigned s =
     (case s of [] \<Rightarrow> None | c # cs \<Rightarrow> if is_digit c then parse_digits (c - 48) cs else None)"

definition py_int :: "pystr \<Rightarrow> int option" where
  "py_int s =
     (case rev (dropWhile int_space (rev (dropWhile int_space s))) of
        [] \<Rightarrow> None
      | c # cs \<Rightarrow>
          if c = 45 then map_option (\<lambda>n. - int n) (parse_unsigned cs)
          else if c = 43 then map_option int (parse_unsigned cs)
          else map_option int (parse_unsigned (c # cs)))"

text \<open>
  Lines 45 to 48: the length of the body, read from the \<open>Content-Length\<close> header
  (\<open>None\<close> when the request has none). An empty value counts as \<open>"0"\<close>, a
  \<open>ValueError\<close> gives 0.
\<close>

definition content_length :: "pystr option \<Rightarrow> int" where
  "content_length header =
     (case py_int (case header of
                     None \<Rightarrow> lit ''0''
                   | Some v \<Rightarrow> if v = [] then lit ''0'' else v) of
        None \<Rightarrow> 0
      | Some n \<Rightarrow> n)"

text \<open>Line 52: an empty body is no JSON document, \<open>json.loads\<close> raises on it.\<close>

definition loads_body :: "py_builtins \<Rightarrow> nat list \<Rightarrow> json option" where
  "loads_body py raw = (if raw = [] then None else json_loads py raw)"

text \<open>Lines 58 to 69: the shape of the payload, then \<open>str\<close> of the two values. The
  members of an object are looked up as in a dictionary; 39 is the apostrophe that ends
  the third message.\<close>

definition handle_payload ::
  "py_builtins \<Rightarrow> io_env \<Rightarrow> path \<Rightarrow> fs \<Rightarrow> json \<Rightarrow> response \<times> fs" where
  "handle_payload py env base_dir fs payload =
     (case payload of
        JObject kvs \<Rightarrow>
          (case (map_of kvs (lit ''FileName''), map_of kvs (lit ''Contents'')) of
             (Some a, Some b) \<Rightarrow> store env base_dir fs (py_str py a) (py_str py b)
           | _ \<Rightarrow> (Response 400 (BodyError (lit ''Missing 'FileName' or 'Contents'' @ [39])), fs))
      | _ \<Rightarrow> (Response 400 (BodyError (lit ''JSON body must be an object'')), fs))"

text \<open>
  The handler: \<open>rfile\<close> is the bytes of the request body that can be read, of which
  \<open>rfile.read(length)\<close> takes at most \<open>length\<close>.
\<close>

definition do_POST ::
  "py_builtins \<Rightarrow> io_env \<Rightarrow> path \<Rightarrow> pystr option \<Rightarrow> nat list \<Rightarrow> fs \<Rightarrow> response \<times> fs" where
  "do_POST py env base_dir header rfile fs =
     (let length = content_length header;
          raw = (if length > 0 then take (nat length) rfile else [])
      in case loads_body py raw of
           None \<Rightarrow> (Response 400 (BodyError (lit ''Invalid JSON body'')), fs)
         | Some payload \<Rightarrow> handle_payload py env base_dir fs payload)"

section \<open>The index maintainer (\<open>_invariant_loop\<close>)\<close>




section \<open>The index as the specification words it\<close>

text \<open>
  The specification's reading of \<open>list_all_files\<close>, stated without \<open>pathlib\<close>: a name
  has the entry extension when it ends in \<open>.txt\<close> in any mix of cases and something
  precedes that ending; the entries of a directory are the last components of the paths
  directly below it; the index is the sorted list of the qualifying names, each without
  its last four characters.
\<close>

definition has_txt_extension :: "pystr \<Rightarrow> bool" where
  "has_txt_extension n \<longleftrightarrow>
     4 < length n \<and> py_lower (drop (length n - 4) n) = lit ''.txt''"

definition entry_names :: "fs \<Rightarrow> path \<Rightarrow> pystr list" where
  "entry_names fs base = map last (filter (\<lambda>p. p \<noteq> [] \<and> butlast p = base) (map fst fs))"

definition spec_index :: "fs \<Rightarrow> path \<Rightarrow> pystr list" where
  "spec_index fs base =
     sort (map (\<lambda>n. take (length n - 4) n)
       (filter (\<lambda>n. is_file fs (base @ [n]) \<and> has_txt_extension n \<and> n \<noteq> lit ''index.txt'')
          (entry_names fs base)))"

text \<open>The text of the index file for a list of names, as \<open>write_all_scene_names\<close>
  builds it.\<close>

definition index_text :: "pystr list \<Rightarrow> pystr" where
  "index_text names = py_join [10] names @ (if names \<noteq> [] then [10] else [])"

section \<open>A sample directory\<close>

text \<open>
  An environment that refuses nothing, and a directory \<open>/srv/scenes\<close> that holds the
  files \<open>b.txt\<close>, \<open>a.TXT\<close>, \<open>index.txt\<close>, \<open>.txt\<close> and \<open>ab.txt\<close> and a subdirectory
  \<open>sub.txt\<close> with a file of its own.
\<close>

definition ex_env :: io_env where
  "ex_env = \<lparr>write_denied = (\<lambda>p. False), scan_denied = (\<lambda>p. False)\<rparr>"

definition ex_base :: path where
  "ex_base = [lit ''srv'', lit ''scenes'']"

definition ex_fs :: fs where
  "ex_fs =
     [(ex_base, Dir),
      (ex_base @ [lit ''b.txt''], File (lit ''x'')),
      (ex_base @ [lit ''a.TXT''], File []),
      (ex_base @ [lit ''index.txt''], File (lit ''stale'')),
      (ex_base @ [lit ''sub.txt''], Dir),
      (ex_base @ [lit ''sub.txt'', lit ''c.txt''], File []),
      (ex_base @ [lit ''.txt''], File []),
      (ex_base @ [lit ''ab.txt''], File [])]"

text \<open>The sample directory after a rebuild of its index.\<close>

definition ex_fs_rebuilt :: fs where
  "ex_fs_rebuilt = AList.update (ex_base @ [lit ''index.txt'']) (File [97, 10, 97, 98, 10, 98, 10]) ex_fs"

text \<open>An environment in which \<open>index.txt\<close> of the sample directory cannot be opened for
  writing, and the sample directory with the entry \<open>Scene 1.txt\<close> added.\<close>

definition ex_env_ro :: io_env where
  "ex_env_ro = \<lparr>write_denied = (\<lambda>p. p = ex_base @ [lit ''index.txt'']), scan_denied = (\<lambda>p. False)\<rparr>"

definition ex_fs_scene :: fs where
  "ex_fs_scene = AList.update (ex_base @ [lit ''Scene 1.txt'']) (File (lit ''hello'')) ex_fs"

text \<open>The sample directory after the entry \<open>Scene 1\<close> was stored with the text
  \<open>hello\<close>, and after it was stored again with \<open>bye\<close>.\<close>

definition ex_fs_hello :: fs where
  "ex_fs_hello =
     AList.update (ex_base @ [lit ''index.txt''])
       (File (index_text [lit ''Scene 1'', lit ''a'', lit ''ab'', lit ''b''])) ex_fs_scene"

definition ex_fs_bye :: fs where
  "ex_fs_bye = AList.update (ex_base @ [lit ''Scene 1.txt'']) (File (lit ''bye'')) ex_fs_hello"


text \<open>
  Two request bodies, the bytes of \<open>{"FileName": 5, "Contents": "x"}\<close> and of
  \<open>{"FileName": true, "Contents": null}\<close>, an interpreter that decodes these two, and the
  sample directory after each has been stored.
\<close>

definition ex_body_int :: "nat list" where
  "ex_body_int = [123, 34, 70, 105, 108, 101, 78, 97, 109, 101, 34, 58, 32, 53, 44, 32, 34, 67,
     111, 110, 116, 101, 110, 116, 115, 34, 58, 32, 34, 120, 34, 125]"

definition ex_body_bool :: "nat list" where
  "ex_body_bool = [123, 34, 70, 105, 108, 101, 78, 97, 109, 101, 34, 58, 32, 116, 114, 117, 101,
     44, 32, 34, 67, 111, 110, 116, 101, 110, 116, 115, 34, 58, 32, 110, 117, 108, 108, 125]"

definition ex_py :: py_builtins where
  "ex_py =
     \<lparr>json_loads = (\<lambda>raw.
        if raw = ex_body_int
        then Some (JObject [(lit ''FileName'', JInt 5), (lit ''Contents'', JStr (lit ''x''))])
        else if raw = ex_body_bool
        then Some (JObject [(lit ''FileName'', JBool True), (lit ''Contents'', JNull)])
        else None),
      str_container = (\<lambda>v. [])\<rparr>"



section \<open>Properties of the sanitiser\<close>

lemma lit_txt: "lit ''.txt'' = [46, 116, 120, 116]"
  by (simp add: lit_def)

lemma allowed_re_sub: "list_all allowed (re_sub_disallowed s)"
  by (auto simp: re_sub_disallowed_def list_all_iff allowed_def)

lemma set_py_strip: "set (py_strip s) \<subseteq> set s"
proof -
  have "set (py_strip s) = set (dropWhile py_isspace (rev (dropWhile py_isspace s)))"
    by (simp add: py_strip_def)
  also have "\<dots> \<subseteq> set (rev (dropWhile py_isspace s))"
    by (rule set_dropWhileD[THEN subsetI])
  also have "\<dots> \<subseteq> set s"
    using set_dropWhileD by fastforce
  finally show ?thesis .
qed

lemma allowed_py_replace: "list_all allowed s \<Longrightarrow> list_all allowed (py_replace a 95 s)"
  by (auto simp: py_replace_def list_all_iff allowed_def)

lemma py_replace_Nil_iff: "py_replace a b s = [] \<longleftrightarrow> s = []"
  by (simp add: py_replace_def)

lemma endswith_append: "endswith (s @ t) t"
  by (simp add: endswith_def)

lemma allowed_txt: "list_all allowed (lit ''.txt'')"
  by (simp add: lit_def allowed_def)

text \<open>
  The sanitised name, as an if-cascade over the substituted, trimmed and
  separator-free string \<open>t\<close>.
\<close>

lemma sanitize_unfold:
  assumes "t = py_replace 92 95 (py_replace 47 95 (py_strip (re_sub_disallowed s)))"
  shows "sanitize s = (if t = [] then None
      else if \<not> endswith t (lit ''.txt'') then Some (t @ lit ''.txt'') else Some t)"
  using assms by (simp add: sanitize_def Let_def)

lemma sanitize_allowed_core:
  "list_all allowed (py_replace 92 95 (py_replace 47 95 (py_strip (re_sub_disallowed s))))"
proof -
  have "list_all allowed (py_strip (re_sub_disallowed s))"
    using allowed_re_sub [of s] set_py_strip [of "re_sub_disallowed s"]
    by (auto simp: list_all_iff)
  then show ?thesis
    by (intro allowed_py_replace)
qed

lemma sanitize_None_iff:
  "sanitize s = None \<longleftrightarrow> py_strip (re_sub_disallowed s) = []"
proof -
  define t where "t = py_replace 92 95 (py_replace 47 95 (py_strip (re_sub_disallowed s)))"
  have "t = [] \<longleftrightarrow> py_strip (re_sub_disallowed s) = []"
    by (simp add: t_def py_replace_Nil_iff)
  then show ?thesis
    by (simp add: sanitize_unfold [OF t_def])
qed

lemma sanitize_SomeD:
  assumes "sanitize s = Some n"
  shows "n \<noteq> []" "list_all allowed n" "endswith n (lit ''.txt'')"
proof -
  define t where "t = py_replace 92 95 (py_replace 47 95 (py_strip (re_sub_disallowed s)))"
  have al: "list_all allowed t"
    unfolding t_def by (rule sanitize_allowed_core)
  have n: "t \<noteq> [] \<and> (n = t @ lit ''.txt'' \<and> \<not> endswith t (lit ''.txt'') \<or>
      n = t \<and> endswith t (lit ''.txt''))"
    using assms by (auto simp: sanitize_unfold [OF t_def] split: if_splits)
  then show "n \<noteq> []" by auto
  show "list_all allowed n" using n al allowed_txt by auto
  show "endswith n (lit ''.txt'')" using n endswith_append [of t "lit ''.txt''"] by auto
qed

text \<open>
  C3. For every input string, sanitisation either yields a non-empty name made only of
  allowed characters (letters, digits, underscore, hyphen, dot, space) that ends in
  \<open>.txt\<close>, or rejects; it rejects exactly when the string obtained by substituting
  the disallowed characters with underscores and trimming white space is empty.
\<close>

theorem sanitize_total:
  "(sanitize s = None \<longleftrightarrow> py_strip (re_sub_disallowed s) = []) \<and>
   (\<forall>n. sanitize s = Some n \<longrightarrow>
      n \<noteq> [] \<and> list_all allowed n \<and> endswith n (lit ''.txt''))"
proof (intro conjI allI impI)
  show "sanitize s = None \<longleftrightarrow> py_strip (re_sub_disallowed s) = []"
    by (rule sanitize_None_iff)
next
  fix n
  assume n: "sanitize s = Some n"
  show "n \<noteq> []" by (rule sanitize_SomeD [OF n])
  show "list_all allowed n" by (rule sanitize_SomeD [OF n])
  show "endswith n (lit ''.txt'')" by (rule sanitize_SomeD [OF n])
qed

theorem sanitize_total_witness:
  "sanitize (lit ''Scene 1'') = Some (lit ''Scene 1.txt'') \<and>
   py_strip (re_sub_disallowed (lit ''Scene 1'')) \<noteq> [] \<and>
   lit ''Scene 1.txt'' \<noteq> [] \<and> list_all allowed (lit ''Scene 1.txt'') \<and>
   endswith (lit ''Scene 1.txt'') (lit ''.txt'')"
proof -
  have eq: "sanitize (lit ''Scene 1'') = Some (lit ''Scene 1.txt'')"
    by (simp add: sanitize_def lit_def py_strip_def re_sub_disallowed_def allowed_def
        py_replace_def endswith_def py_isspace_def)
  show ?thesis
    using sanitize_total [of "lit ''Scene 1''"] eq by auto
qed

text \<open>
  C7. The concrete cases: \<open>a/b\<close> becomes \<open>a_b.txt\<close>; a string of two spaces is
  rejected; \<open>data.txt\<close> is kept as it is; \<open>data.TXT\<close> becomes \<open>data.TXT.txt\<close>, the
  suffix check being case-sensitive; \<open>../../etc/passwd\<close> becomes
  \<open>.._.._etc_passwd.txt\<close>.
\<close>

theorem sanitize_cases:
  "sanitize (lit ''a/b'') = Some (lit ''a_b.txt'') \<and>
   sanitize (lit ''  '') = None \<and>
   sanitize (lit ''data.txt'') = Some (lit ''data.txt'') \<and>
   sanitize (lit ''data.TXT'') = Some (lit ''data.TXT.txt'') \<and>
   sanitize (lit ''../../etc/passwd'') = Some (lit ''.._.._etc_passwd.txt'')"
  by (simp add: sanitize_def lit_def py_strip_def re_sub_disallowed_def allowed_def
      py_replace_def endswith_def py_isspace_def)

section \<open>Properties of the index builder\<close>


lemma rfind_last: "c \<notin> set t \<Longrightarrow> rfind c (pre @ c # t) = int (length pre)"
proof -
  assume a: "c \<notin> set t"
  have "takeWhile (\<lambda>x. x \<noteq> c) (rev t @ c # rev pre) = rev t"
    using a by (auto simp: takeWhile_tail)
  then show ?thesis by (simp add: rfind_def)
qed

lemma py_suffix_split:
  "46 \<notin> set t \<Longrightarrow>
   py_suffix (pre @ 46 # t) = (if pre \<noteq> [] \<and> t \<noteq> [] then 46 # t else [])"
  by (auto simp: py_suffix_def rfind_last Let_def)

lemma py_stem_split:
  "46 \<notin> set t \<Longrightarrow>
   py_stem (pre @ 46 # t) = (if pre \<noteq> [] \<and> t \<noteq> [] then pre else pre @ 46 # t)"
  by (auto simp: py_stem_def rfind_last Let_def)

lemma py_suffix_nodot: "46 \<notin> set n \<Longrightarrow> py_suffix n = []"
  by (simp add: py_suffix_def rfind_def)

lemma py_lower_txt_iff:
  "py_lower s = lit ''.txt'' \<longleftrightarrow>
     (\<exists>a b c. s = [46, a, b, c] \<and> (a = 116 \<or> a = 84) \<and> (b = 120 \<or> b = 88) \<and> (c = 116 \<or> c = 84))"
proof
  assume h: "py_lower s = lit ''.txt''"
  then have "length (py_lower s) = 4" by (simp add: lit_txt)
  then have "length s = 4" by (simp add: py_lower_def)
  then obtain d a b c where s: "s = [d, a, b, c]"
    by (auto simp: length_Suc_conv numeral_eq_Suc)
  show "\<exists>a b c. s = [46, a, b, c] \<and> (a = 116 \<or> a = 84) \<and> (b = 120 \<or> b = 88) \<and> (c = 116 \<or> c = 84)"
    using h unfolding s by (auto simp: py_lower_def lit_txt split: if_splits)
next
  assume "\<exists>a b c. s = [46, a, b, c] \<and> (a = 116 \<or> a = 84) \<and> (b = 120 \<or> b = 88) \<and> (c = 116 \<or> c = 84)"
  then show "py_lower s = lit ''.txt''"
    by (auto simp: py_lower_def lit_txt)
qed


lemma suffix_txt_iff:
  "py_lower (py_suffix n) = lit ''.txt'' \<longleftrightarrow> has_txt_extension n"
proof (cases "46 \<in> set n")
  case False
  then have "py_suffix n = []" by (rule py_suffix_nodot)
  moreover have "\<not> has_txt_extension n"
  proof
    assume "has_txt_extension n"
    then have l: "4 < length n" and "py_lower (drop (length n - 4) n) = lit ''.txt''"
      by (auto simp: has_txt_extension_def)
    then obtain a b c where "drop (length n - 4) n = [46, a, b, c]"
      by (auto simp: py_lower_txt_iff)
    then have "46 \<in> set (drop (length n - 4) n)" by simp
    then show False using False by (meson in_set_dropD)
  qed
  ultimately show ?thesis by (simp add: py_lower_def lit_txt)
next
  case True
  then obtain pre t where n: "n = pre @ 46 # t" and t: "46 \<notin> set t"
    by (meson split_list_last)
  show ?thesis
  proof
    assume "py_lower (py_suffix n) = lit ''.txt''"
    then have "pre \<noteq> [] \<and> t \<noteq> [] \<and> py_lower (46 # t) = lit ''.txt''"
      unfolding n using t by (auto simp: py_suffix_split py_lower_def lit_txt split: if_splits)
    moreover from this have "length t = 3"
      by (auto simp: py_lower_txt_iff)
    ultimately show "has_txt_extension n"
      unfolding n has_txt_extension_def by auto
  next
    assume h: "has_txt_extension n"
    then obtain a b c where d: "drop (length n - 4) n = [46, a, b, c]"
      and abc: "(a = 116 \<or> a = 84) \<and> (b = 120 \<or> b = 88) \<and> (c = 116 \<or> c = 84)"
      and l: "4 < length n"
      by (auto simp: has_txt_extension_def py_lower_txt_iff)
    have "n = take (length n - 4) n @ 46 # [a, b, c]"
      using d by (metis append_take_drop_id)
    moreover have "46 \<notin> set [a, b, c]" using abc by auto
    moreover have "take (length n - 4) n \<noteq> []" using l by auto
    ultimately have "py_suffix n = 46 # [a, b, c]"
      using py_suffix_split [of "[a, b, c]" "take (length n - 4) n"] by simp
    then show "py_lower (py_suffix n) = lit ''.txt''"
      using abc by (auto simp: py_lower_txt_iff)
  qed
qed

lemma stem_of_txt:
  assumes "has_txt_extension n"
  shows "py_stem n = take (length n - 4) n"
proof -
  from assms obtain a b c where d: "drop (length n - 4) n = [46, a, b, c]"
      and abc: "(a = 116 \<or> a = 84) \<and> (b = 120 \<or> b = 88) \<and> (c = 116 \<or> c = 84)"
      and l: "4 < length n"
    by (auto simp: has_txt_extension_def py_lower_txt_iff)
  have n: "n = take (length n - 4) n @ 46 # [a, b, c]"
    using d by (metis append_take_drop_id)
  moreover have "46 \<notin> set [a, b, c]" using abc by auto
  moreover have "take (length n - 4) n \<noteq> []" using l by auto
  ultimately show ?thesis
    using py_stem_split [of "[a, b, c]" "take (length n - 4) n"] by simp
qed


lemma child_path:
  assumes "p \<noteq> []" "parent p = base"
  shows "path_name p = last p" "base @ [last p] = p"
  using assms by (auto simp: path_name_def parent_def)

lemma list_all_files_eq_spec:
  "list_all_files env fs base =
     (if scan_denied env base then Inl OSError else Inr (spec_index fs base))"
proof (cases "scan_denied env base")
  case True
  then show ?thesis by (simp add: list_all_files_def iterdir_def)
next
  case False
  define ps where "ps = filter (\<lambda>p. p \<noteq> [] \<and> parent p = base) (map fst fs)"
  define Q where "Q = (\<lambda>p. is_file fs p \<and> py_lower (py_suffix (path_name p)) = lit ''.txt'' \<and>
                          path_name p \<noteq> lit ''index.txt'')"
  define R where "R = (\<lambda>n. is_file fs (base @ [n]) \<and> has_txt_extension n \<and> n \<noteq> lit ''index.txt'')"
  have in_ps: "p \<noteq> [] \<and> parent p = base" if "p \<in> set ps" for p
    using that by (auto simp: ps_def)
  have QR: "Q p \<longleftrightarrow> R (last p)" if "p \<in> set ps" for p
    using child_path [of p base] in_ps [OF that]
    by (simp add: Q_def R_def suffix_txt_iff)
  have f: "filter R (map last ps) = map last (filter Q ps)"
    using QR by (simp add: filter_map o_def cong: filter_cong)
  have m: "map (\<lambda>n. take (length n - 4) n) (map last (filter Q ps)) =
        map (\<lambda>p. py_stem (path_name p)) (filter Q ps)"
  proof -
    have "take (length (last p) - 4) (last p) = py_stem (path_name p)"
      if "p \<in> set (filter Q ps)" for p
    proof -
      from that have "p \<in> set ps" "Q p" by auto
      then have "has_txt_extension (last p)" "path_name p = last p"
        using QR [of p] child_path [of p base] in_ps [of p] by (auto simp: R_def)
      then show ?thesis by (simp add: stem_of_txt)
    qed
    then show ?thesis by (simp add: o_def cong: map_cong)
  qed
  have l: "list_all_files env fs base = Inr (sort (map (\<lambda>p. py_stem (path_name p)) (filter Q ps)))"
    using False by (simp add: list_all_files_def iterdir_def ps_def Q_def)
  have "spec_index fs base = sort (map (\<lambda>n. take (length n - 4) n) (filter R (map last ps)))"
    by (simp add: spec_index_def entry_names_def ps_def R_def parent_def)
  also have "\<dots> = sort (map (\<lambda>n. take (length n - 4) n) (map last (filter Q ps)))"
    by (simp only: f)
  also have "\<dots> = sort (map (\<lambda>p. py_stem (path_name p)) (filter Q ps))"
    by (simp only: m)
  finally show ?thesis
    using False l by simp
qed

text \<open>
  C2. For every directory, \<open>list_all_files\<close> returns the names of the directory's
  immediate regular files whose extension is \<open>.txt\<close> in any mix of cases, the literal
  name \<open>index.txt\<close> excluded, each without its suffix, in lexicographic order. (When the
  directory cannot be listed the call raises.)
\<close>

theorem list_all_files_spec:
  "list_all_files env fs base =
     (if scan_denied env base then Inl OSError else Inr (spec_index fs base)) \<and>
   sorted (spec_index fs base)"
proof
  show "list_all_files env fs base =
      (if scan_denied env base then Inl OSError else Inr (spec_index fs base))"
    by (rule list_all_files_eq_spec)
  show "sorted (spec_index fs base)"
    unfolding spec_index_def by (rule sorted_sort)
qed

theorem list_all_files_spec_witness:
  "list_all_files ex_env ex_fs ex_base = Inr [lit ''a'', lit ''ab'', lit ''b''] \<and>
   sorted [lit ''a'', lit ''ab'', lit ''b'']"
proof -
  have "spec_index ex_fs ex_base = [lit ''a'', lit ''ab'', lit ''b'']"
    by (simp add: spec_index_def entry_names_def has_txt_extension_def is_file_def
        ex_fs_def ex_base_def lit_def py_lower_def)
  then show ?thesis
    using list_all_files_spec [of ex_env ex_fs ex_base] by (simp add: ex_env_def)
qed

section \<open>Properties of the index rebuild\<close>


lemma split_slash_noslash: "47 \<notin> set s \<Longrightarrow> split_slash s = [s]"
  by (induction s) auto

lemma truediv_single:
  assumes "47 \<notin> set s" "s \<noteq> []" "s \<noteq> lit ''.''"
  shows "truediv base s = base @ [s]"
proof -
  have "hd s \<noteq> 47" using assms(1,2) by (cases s) auto
  then show ?thesis
    using assms by (simp add: truediv_def parse_parts_def split_slash_noslash)
qed

lemma truediv_index: "truediv base (lit ''index.txt'') = base @ [lit ''index.txt'']"
  by (rule truediv_single) (simp_all add: lit_def)

lemma is_file_update_other:
  "p \<noteq> k \<Longrightarrow> is_file (AList.update k v fs) p = is_file fs p"
  by (simp add: is_file_def update_conv')

lemma spec_index_update_index:
  "spec_index (AList.update (d @ [lit ''index.txt'']) v fs) base = spec_index fs base"
proof -
  define k where "k = d @ [lit ''index.txt'']"
  define R where "R = (\<lambda>f n. is_file f (base @ [n]) \<and> has_txt_extension n \<and> n \<noteq> lit ''index.txt'')"
  have R_eq: "R (AList.update k v fs) n = R fs n" for n
  proof (cases "n = lit ''index.txt''")
    case True then show ?thesis by (simp add: R_def)
  next
    case False
    then have "base @ [n] \<noteq> k" by (auto simp: k_def)
    then show ?thesis by (simp add: R_def is_file_update_other)
  qed
  have R_idx: "\<not> R f (last k)" for f by (simp add: R_def k_def)
  have "filter (R fs) (entry_names (AList.update k v fs) base) = filter (R fs) (entry_names fs base)"
    using R_idx [of fs] by (simp add: entry_names_def update_keys)
  then have "filter (R (AList.update k v fs)) (entry_names (AList.update k v fs) base)
      = filter (R fs) (entry_names fs base)"
    using R_eq by presburger
  then show ?thesis
    unfolding spec_index_def R_def k_def by simp
qed

lemma write_text_ok:
  assumes "write_text env fs p data = (None, fs')"
  shows "fs' = AList.update p (File data) fs" "\<not> write_denied env p" "utf8_encodable data"
    "map_of fs p \<noteq> Some Dir"
  using assms by (auto simp: write_text_def split: if_splits)

lemma write_text_raises_OSError:
  assumes "write_text env fs p data = (Some OSError, fs')"
  shows "fs' = fs"
  using assms by (auto simp: write_text_def split: if_splits)

text \<open>The index text is the names, each followed by a newline.\<close>

lemma index_content_lines:
  "py_join [10] names @ (if names \<noteq> [] then [10] else []) = concat (map (\<lambda>n. n @ [10]) names)"
  by (induction names rule: py_join.induct[of _ "[10]"]) auto

text \<open>
  C1. After any completed index rebuild the file \<open>index.txt\<close> holds exactly the list
  that \<open>list_all_files\<close> returns for the directory (before the rebuild and after it),
  joined by newlines, with a trailing newline exactly when the list is not empty.
\<close>

theorem index_after_rebuild:
  assumes "write_all_scene_names env fs base = (None, fs')"
  shows "\<exists>names. list_all_files env fs' base = Inr names \<and>
     list_all_files env fs base = Inr names \<and>
     map_of fs' (base @ [lit ''index.txt'']) =
       Some (File (py_join [10] names @ (if names \<noteq> [] then [10] else [])))"
proof (cases "list_all_files env fs base")
  case (Inl e)
  with assms show ?thesis by (simp add: write_all_scene_names_def)
next
  case (Inr names)
  define content where "content = py_join [10] names @ (if names \<noteq> [] then [10] else [])"
  have w: "write_text env fs (base @ [lit ''index.txt'']) content = (None, fs')"
    using assms Inr by (simp add: write_all_scene_names_def truediv_index content_def)
  then have fs': "fs' = AList.update (base @ [lit ''index.txt'']) (File content) fs"
    by (rule write_text_ok)
  have "list_all_files env fs' base = list_all_files env fs base"
    by (simp add: list_all_files_eq_spec fs' spec_index_update_index)
  moreover have "map_of fs' (base @ [lit ''index.txt'']) = Some (File content)"
    by (simp add: fs' update_conv')
  ultimately show ?thesis using Inr by (simp add: content_def)
qed

lemma ex_list: "list_all_files ex_env ex_fs ex_base = Inr [lit ''a'', lit ''ab'', lit ''b'']"
  by (simp add: list_all_files_eq_spec
      spec_index_def entry_names_def has_txt_extension_def is_file_def
      ex_fs_def ex_base_def ex_env_def lit_def py_lower_def)

lemma ex_rebuild: "write_all_scene_names ex_env ex_fs ex_base = (None, ex_fs_rebuilt)"
  unfolding write_all_scene_names_def ex_list truediv_index
  by (simp add: write_text_def utf8_encodable_def ex_fs_def ex_base_def ex_env_def lit_def
      ex_fs_rebuilt_def)

theorem index_after_rebuild_witness:
  "write_all_scene_names ex_env ex_fs ex_base = (None, ex_fs_rebuilt) \<and>
   list_all_files ex_env ex_fs_rebuilt ex_base = Inr [lit ''a'', lit ''ab'', lit ''b''] \<and>
   map_of ex_fs_rebuilt (ex_base @ [lit ''index.txt'']) = Some (File [97, 10, 97, 98, 10, 98, 10])"
proof -
  show ?thesis
    using index_after_rebuild [OF ex_rebuild] ex_list ex_rebuild by (auto simp: lit_def)
qed

section \<open>Properties of the store\<close>

lemma allowed_not_sep: "allowed c \<Longrightarrow> c \<noteq> 47 \<and> c \<noteq> 92"
  by (auto simp: allowed_def)

lemma sanitize_no_sep:
  assumes "sanitize s = Some n"
  shows "47 \<notin> set n" "92 \<notin> set n"
  using sanitize_SomeD(2) [OF assms] allowed_not_sep by (auto simp: list_all_iff)

lemma sanitize_target:
  assumes "sanitize s = Some n"
  shows "truediv base n = base @ [n]"
proof (rule truediv_single)
  show "47 \<notin> set n" by (rule sanitize_no_sep [OF assms])
  show "n \<noteq> []" by (rule sanitize_SomeD [OF assms])
  have "4 \<le> length n"
    using sanitize_SomeD(3) [OF assms] by (simp add: endswith_def lit_txt)
  then show "n \<noteq> lit ''.''" by (auto simp: lit_def)
qed

lemma write_text_frame:
  assumes "write_text env fs p d = (r, fs')" "q \<noteq> p"
  shows "map_of fs' q = map_of fs q"
  using assms by (auto simp: write_text_def update_conv' split: if_splits)

lemma write_all_frame:
  assumes "write_all_scene_names env fs base = (r, fs')" "q \<noteq> base @ [lit ''index.txt'']"
  shows "map_of fs' q = map_of fs q"
proof (cases "list_all_files env fs base")
  case (Inl e)
  with assms show ?thesis by (simp add: write_all_scene_names_def)
next
  case (Inr names)
  with assms(1) have "write_text env fs (base @ [lit ''index.txt''])
      (py_join [10] names @ (if names \<noteq> [] then [10] else [])) = (r, fs')"
    by (simp add: write_all_scene_names_def truediv_index)
  then show ?thesis using assms(2) by (rule write_text_frame)
qed

text \<open>The store as a sequence of its two writes.\<close>

lemma store_Some:
  assumes "sanitize name = Some n"
  shows "store env base fs name contents =
     (case write_text env fs (base @ [n]) contents of
        (Some e, fs1) \<Rightarrow> (Response 500 (BodyExn e), fs1)
      | (None, fs1) \<Rightarrow>
          (case write_all_scene_names env fs1 base of
             (Some e, fs2) \<Rightarrow> (Response 500 (BodyExn e), fs2)
           | (None, fs2) \<Rightarrow> (Response 200 (BodyFile n), fs2)))"
  by (simp add: store_def assms sanitize_target [OF assms] path_name_def Let_def
      split: prod.splits option.splits)


lemma write_all_ok_index_file:
  assumes "write_all_scene_names env fs base = (None, fs')"
  shows "is_file fs' (base @ [lit ''index.txt''])"
proof (cases "list_all_files env fs base")
  case (Inl e)
  with assms show ?thesis by (simp add: write_all_scene_names_def)
next
  case (Inr names)
  with assms(1) have "write_text env fs (base @ [lit ''index.txt''])
      (py_join [10] names @ (if names \<noteq> [] then [10] else [])) = (None, fs')"
    by (simp add: write_all_scene_names_def truediv_index)
  then show ?thesis by (auto simp: write_text_def is_file_def update_conv' split: if_splits)
qed

lemma store_ok:
  assumes "sanitize name = Some n" "store env base fs name contents = (Response 200 b, fs')"
  shows "b = BodyFile n" "is_file fs' (base @ [n])"
    "\<exists>fs1. write_text env fs (base @ [n]) contents = (None, fs1) \<and>
           write_all_scene_names env fs1 base = (None, fs')"
proof -
  obtain r1 fs1 where w: "write_text env fs (base @ [n]) contents = (r1, fs1)"
    by (cases "write_text env fs (base @ [n]) contents") auto
  obtain r2 fs2 where a: "write_all_scene_names env fs1 base = (r2, fs2)"
    by (cases "write_all_scene_names env fs1 base") auto
  have r: "r1 = None \<and> r2 = None \<and> fs' = fs2 \<and> b = BodyFile n"
    using assms(2) w a unfolding store_Some [OF assms(1)]
    by (auto split: option.splits)
  then show "b = BodyFile n" by simp
  show "\<exists>fs1. write_text env fs (base @ [n]) contents = (None, fs1) \<and>
           write_all_scene_names env fs1 base = (None, fs')"
    using r w a by auto
  show "is_file fs' (base @ [n])"
  proof (cases "n = lit ''index.txt''")
    case True
    then show ?thesis using write_all_ok_index_file a r by auto
  next
    case False
    then have "map_of fs2 (base @ [n]) = map_of fs1 (base @ [n])"
      using a by (intro write_all_frame) auto
    moreover have "map_of fs1 (base @ [n]) = Some (File contents)"
      using w r by (auto simp: write_text_def update_conv' split: if_splits)
    ultimately show ?thesis using r by (simp add: is_file_def)
  qed
qed






lemma write_all_OSError_unchanged:
  assumes "write_all_scene_names env fs base = (Some OSError, fs')"
  shows "fs' = fs"
proof (cases "list_all_files env fs base")
  case (Inl e)
  with assms show ?thesis by (simp add: write_all_scene_names_def)
next
  case (Inr names)
  with assms(1) have "write_text env fs (base @ [lit ''index.txt''])
      (py_join [10] names @ (if names \<noteq> [] then [10] else [])) = (Some OSError, fs')"
    by (simp add: write_all_scene_names_def truediv_index)
  then show ?thesis by (rule write_text_raises_OSError)
qed

text \<open>
  C5. If the write of the entry file succeeds and the index rebuild that follows raises
  an I/O error (\<open>OSError\<close>), the store answers 500 with the error as its body, and the
  entry file stays on disk with the content just written.
\<close>

theorem store_index_failure:
  assumes "sanitize name = Some safe_name"
    and "write_text env fs (truediv base safe_name) contents = (None, fs1)"
    and "write_all_scene_names env fs1 base = (Some OSError, fs2)"
  shows "store env base fs name contents = (Response 500 (BodyExn OSError), fs2) \<and>
     map_of fs2 (truediv base safe_name) = Some (File contents)"
proof -
  have w: "write_text env fs (base @ [safe_name]) contents = (None, fs1)"
    using assms(2) by (simp add: sanitize_target [OF assms(1)])
  have "fs2 = fs1" using assms(3) by (rule write_all_OSError_unchanged)
  moreover have "map_of fs1 (base @ [safe_name]) = Some (File contents)"
    using write_text_ok(1) [OF w] by (simp add: update_conv')
  ultimately show ?thesis
    using w assms(3) by (simp add: store_Some [OF assms(1)] sanitize_target [OF assms(1)])
qed

lemma sanitize_scene: "sanitize (lit ''Scene 1'') = Some (lit ''Scene 1.txt'')"
  by (simp add: sanitize_def lit_def py_strip_def re_sub_disallowed_def allowed_def
        py_replace_def endswith_def py_isspace_def)

lemma truediv_scene: "truediv ex_base (lit ''Scene 1.txt'') = ex_base @ [lit ''Scene 1.txt'']"
  by (rule sanitize_target [OF sanitize_scene])

lemma ex_write_scene_ro:
  "write_text ex_env_ro ex_fs (truediv ex_base (lit ''Scene 1.txt'')) (lit ''hello'') = (None, ex_fs_scene)"
  unfolding truediv_scene
  by (simp add: write_text_def ex_env_ro_def ex_fs_def ex_base_def lit_def utf8_encodable_def
      ex_fs_scene_def)

lemma ex_rebuild_ro:
  "write_all_scene_names ex_env_ro ex_fs_scene ex_base = (Some OSError, ex_fs_scene)"
  by (simp add: write_all_scene_names_def list_all_files_eq_spec truediv_index write_text_def
      ex_env_ro_def split: sum.splits)

theorem store_index_failure_witness:
  "sanitize (lit ''Scene 1'') = Some (lit ''Scene 1.txt'') \<and>
   write_text ex_env_ro ex_fs (truediv ex_base (lit ''Scene 1.txt'')) (lit ''hello'') = (None, ex_fs_scene) \<and>
   write_all_scene_names ex_env_ro ex_fs_scene ex_base = (Some OSError, ex_fs_scene) \<and>
   store ex_env_ro ex_base ex_fs (lit ''Scene 1'') (lit ''hello'') =
     (Response 500 (BodyExn OSError), ex_fs_scene) \<and>
   map_of ex_fs_scene (truediv ex_base (lit ''Scene 1.txt'')) = Some (File (lit ''hello''))"
  using store_index_failure [OF sanitize_scene ex_write_scene_ro ex_rebuild_ro]
    sanitize_scene ex_write_scene_ro ex_rebuild_ro by blast


lemma write_all_ok:
  assumes "write_all_scene_names env fs base = (None, fs')"
  shows "fs' = AList.update (base @ [lit ''index.txt'']) (File (index_text (spec_index fs base))) fs"
proof (cases "scan_denied env base")
  case True
  with assms show ?thesis
    by (simp add: write_all_scene_names_def list_all_files_eq_spec)
next
  case False
  with assms have "write_text env fs (base @ [lit ''index.txt''])
      (index_text (spec_index fs base)) = (None, fs')"
    by (simp add: write_all_scene_names_def list_all_files_eq_spec truediv_index index_text_def)
  then show ?thesis by (rule write_text_ok)
qed

lemma store_ok_fs:
  assumes "sanitize name = Some n" "store env base fs name c = (Response 200 b, fs')"
  shows "fs' = AList.update (base @ [lit ''index.txt''])
           (File (index_text (spec_index (AList.update (base @ [n]) (File c) fs) base)))
           (AList.update (base @ [n]) (File c) fs)"
proof -
  from store_ok(3) [OF assms] obtain fsA where
    w: "write_text env fs (base @ [n]) c = (None, fsA)" and
    a: "write_all_scene_names env fsA base = (None, fs')" by blast
  have "fsA = AList.update (base @ [n]) (File c) fs" using w by (rule write_text_ok)
  with write_all_ok [OF a] show ?thesis by simp
qed

lemma store_twice_same:
  assumes san: "sanitize name = Some n"
    and s1: "store env1 base fs name c = (Response 200 b1, fs1)"
    and s2: "store env2 base fs1 name c = (Response 200 b2, fs2)"
  shows "fs2 = fs1"
proof -
  define idx where "idx = base @ [lit ''index.txt'']"
  define t where "t = base @ [n]"
  define X where "X = AList.update t (File c) fs"
  define I where "I = File (index_text (spec_index X base))"
  have fs1: "fs1 = AList.update idx I X"
    using store_ok_fs [OF san s1] by (simp add: idx_def t_def X_def I_def)
  have fs2: "fs2 = AList.update idx (File (index_text (spec_index (AList.update t (File c) fs1) base)))
      (AList.update t (File c) fs1)"
    using store_ok_fs [OF san s2] by (simp add: idx_def t_def)
  show ?thesis
  proof (cases "t = idx")
    case True
    have "AList.update t (File c) fs1 = X"
      by (simp add: fs1 X_def True)
    then show ?thesis
      by (simp add: fs2 fs1 I_def)
  next
    case False
    have "map_of fs1 t = Some (File c)"
      using False by (simp add: fs1 X_def update_conv')
    then have X2: "AList.update t (File c) fs1 = fs1" by (rule update_triv)
    have "spec_index fs1 base = spec_index X base"
      unfolding fs1 idx_def by (rule spec_index_update_index)
    then show ?thesis
      by (simp add: fs2 X2 I_def) (simp add: fs1 I_def)
  qed
qed

text \<open>
  C6, as amended. Of two stores under the same name that both answer 200, the second
  with the same content leaves the file system exactly as the first left it (entry and
  index alike); and when the sanitised name is not \<open>index.txt\<close>, the entry file holds
  exactly the content of the second store.
\<close>

theorem store_twice:
  assumes san: "sanitize name = Some safe_name"
    and s1: "store env1 base fs name c1 = (Response 200 b1, fs1)"
    and s2: "store env2 base fs1 name c2 = (Response 200 b2, fs2)"
  shows "(c2 = c1 \<longrightarrow> fs2 = fs1) \<and>
     (safe_name \<noteq> lit ''index.txt'' \<longrightarrow> map_of fs2 (base @ [safe_name]) = Some (File c2))"
proof -
  have "map_of fs2 (base @ [safe_name]) = Some (File c2)" if "safe_name \<noteq> lit ''index.txt''"
    using that by (simp add: store_ok_fs [OF san s2] update_conv')
  moreover have "fs2 = fs1" if "c2 = c1"
    using store_twice_same [OF san s1] s2 that by blast
  ultimately show ?thesis by blast
qed


text \<open>The unfolding that evaluates a store on the sample directory.\<close>

lemmas ex_eval =
  store_def sanitize_def py_strip_def re_sub_disallowed_def allowed_def py_replace_def
  endswith_def py_isspace_def truediv_def parse_parts_def path_name_def
  write_text_def utf8_encodable_def write_all_scene_names_def list_all_files_eq_spec
  spec_index_def entry_names_def has_txt_extension_def is_file_def py_lower_def
  ex_env_def ex_base_def ex_fs_def ex_fs_scene_def ex_fs_rebuilt_def ex_fs_hello_def
  ex_fs_bye_def index_text_def lit_def Let_def

lemma ex_store_hello:
  "store ex_env ex_base ex_fs (lit ''Scene 1'') (lit ''hello'') =
     (Response 200 (BodyFile (lit ''Scene 1.txt'')), ex_fs_hello)"
  by (simp add: ex_eval)

lemma ex_store_hello_again:
  "store ex_env ex_base ex_fs_hello (lit ''Scene 1'') (lit ''hello'') =
     (Response 200 (BodyFile (lit ''Scene 1.txt'')), ex_fs_hello)"
  by (simp add: ex_eval)

lemma ex_store_bye:
  "store ex_env ex_base ex_fs_hello (lit ''Scene 1'') (lit ''bye'') =
     (Response 200 (BodyFile (lit ''Scene 1.txt'')), ex_fs_bye)"
  by (simp add: ex_eval)

lemma ex_store_index:
  "store ex_env ex_base ex_fs (lit ''index'') (lit ''v1'') =
     (Response 200 (BodyFile (lit ''index.txt'')), ex_fs_rebuilt)"
  by (simp add: ex_eval)

lemma ex_store_index_again:
  "store ex_env ex_base ex_fs_rebuilt (lit ''index'') (lit ''v2'') =
     (Response 200 (BodyFile (lit ''index.txt'')), ex_fs_rebuilt)"
  by (simp add: ex_eval)

text \<open>
  C6 as stated fails for a name that sanitises to \<open>index.txt\<close>: both stores answer
  200 for the file \<open>index.txt\<close>, and the file then holds the index, not the content
  stored.
\<close>

theorem store_overwrite_counterexample:
  "sanitize (lit ''index'') = Some (lit ''index.txt'') \<and>
   store ex_env ex_base ex_fs (lit ''index'') (lit ''v1'') =
     (Response 200 (BodyFile (lit ''index.txt'')), ex_fs_rebuilt) \<and>
   store ex_env ex_base ex_fs_rebuilt (lit ''index'') (lit ''v2'') =
     (Response 200 (BodyFile (lit ''index.txt'')), ex_fs_rebuilt) \<and>
   map_of ex_fs_rebuilt (ex_base @ [lit ''index.txt'']) = Some (File [97, 10, 97, 98, 10, 98, 10]) \<and>
   map_of ex_fs_rebuilt (ex_base @ [lit ''index.txt'']) \<noteq> Some (File (lit ''v2''))"
proof -
  have "sanitize (lit ''index'') = Some (lit ''index.txt'')"
    by (simp add: ex_eval)
  moreover have "map_of ex_fs_rebuilt (ex_base @ [lit ''index.txt'']) =
      Some (File [97, 10, 97, 98, 10, 98, 10])"
    by (simp add: ex_fs_rebuilt_def update_conv')
  moreover have "[97, 10, 97, 98, 10, 98, 10] \<noteq> lit ''v2''"
    by (simp add: lit_def)
  ultimately show ?thesis
    using ex_store_index ex_store_index_again by simp
qed

theorem store_twice_witness:
  "sanitize (lit ''Scene 1'') = Some (lit ''Scene 1.txt'') \<and>
   lit ''Scene 1.txt'' \<noteq> lit ''index.txt'' \<and>
   store ex_env ex_base ex_fs (lit ''Scene 1'') (lit ''hello'') =
     (Response 200 (BodyFile (lit ''Scene 1.txt'')), ex_fs_hello) \<and>
   store ex_env ex_base ex_fs_hello (lit ''Scene 1'') (lit ''hello'') =
     (Response 200 (BodyFile (lit ''Scene 1.txt'')), ex_fs_hello) \<and>
   store ex_env ex_base ex_fs_hello (lit ''Scene 1'') (lit ''bye'') =
     (Response 200 (BodyFile (lit ''Scene 1.txt'')), ex_fs_bye) \<and>
   map_of ex_fs_hello (ex_base @ [lit ''Scene 1.txt'']) = Some (File (lit ''hello'')) \<and>
   map_of ex_fs_bye (ex_base @ [lit ''Scene 1.txt'']) = Some (File (lit ''bye''))"
proof -
  have ne: "lit ''Scene 1.txt'' \<noteq> lit ''index.txt''"
    by (simp add: lit_def)
  show ?thesis
    using store_twice [OF sanitize_scene ex_store_hello ex_store_hello_again]
      store_twice [OF sanitize_scene ex_store_hello ex_store_bye]
      ne sanitize_scene ex_store_hello ex_store_hello_again ex_store_bye
    by simp
qed

section \<open>Properties of the index maintainer\<close>









section \<open>Properties of the request handler\<close>


lemma py_int_zero: "py_int (lit ''0'') = Some 0"
  by (simp add: py_int_def lit_def int_space_def py_isspace_def parse_unsigned_def is_digit_def)

lemma content_length_nonpositive:
  assumes "h = None \<or> h = Some [] \<or>
     (\<exists>s. h = Some s \<and> (py_int s = None \<or> (\<exists>n. py_int s = Some n \<and> n \<le> 0)))"
  shows "content_length h \<le> 0"
  using assms by (auto simp: content_length_def py_int_zero)

text \<open>
  C10. A POST whose \<open>Content-Length\<close> header is missing, empty, not a number or not
  positive has its body taken as empty and is answered with status 400 and the body
  \<open>{"ok": false, "error": "Invalid JSON body"}\<close>; the file system stays as it was.
\<close>

theorem do_POST_bad_content_length:
  assumes "h = None \<or> h = Some [] \<or>
     (\<exists>s. h = Some s \<and> (py_int s = None \<or> (\<exists>n. py_int s = Some n \<and> n \<le> 0)))"
  shows "do_POST py env base h rfile fs =
     (Response 400 (BodyError (lit ''Invalid JSON body'')), fs)"
  using content_length_nonpositive [OF assms]
  by (simp add: do_POST_def loads_body_def Let_def)

lemma py_int_abc: "py_int (lit ''abc'') = None"
  by (simp add: py_int_def lit_def int_space_def py_isspace_def parse_unsigned_def is_digit_def)

lemma py_int_neg: "py_int (lit ''-5'') = Some (- 5)"
  by (simp add: py_int_def lit_def int_space_def py_isspace_def parse_unsigned_def is_digit_def)

theorem do_POST_bad_content_length_witness:
  "py_int (lit ''abc'') = None \<and>
   do_POST ex_py ex_env ex_base (Some (lit ''abc'')) ex_body_int ex_fs =
     (Response 400 (BodyError (lit ''Invalid JSON body'')), ex_fs) \<and>
   py_int (lit ''-5'') = Some (- 5) \<and>
   do_POST ex_py ex_env ex_base (Some (lit ''-5'')) ex_body_int ex_fs =
     (Response 400 (BodyError (lit ''Invalid JSON body'')), ex_fs) \<and>
   do_POST ex_py ex_env ex_base None ex_body_int ex_fs =
     (Response 400 (BodyError (lit ''Invalid JSON body'')), ex_fs) \<and>
   do_POST ex_py ex_env ex_base (Some []) ex_body_int ex_fs =
     (Response 400 (BodyError (lit ''Invalid JSON body'')), ex_fs)"
  using do_POST_bad_content_length [of "Some (lit ''abc'')" ex_py ex_env ex_base ex_body_int ex_fs]
    do_POST_bad_content_length [of "Some (lit ''-5'')" ex_py ex_env ex_base ex_body_int ex_fs]
    do_POST_bad_content_length [of None ex_py ex_env ex_base ex_body_int ex_fs]
    do_POST_bad_content_length [of "Some []" ex_py ex_env ex_base ex_body_int ex_fs]
    py_int_abc py_int_neg
  by simp














end
